theory Spec2Isabelle
  imports Complex_Main "HOL-Library.AList"
begin

section \<open>Arrays and floating-point values\<close>

text \<open>
  Python floats (float64) are modelled as exact reals; the conversion to float32 that
  \<open>F_matrix\<close> asks for is modelled with its rounding and its overflow. A one-dimensional array (and a column
  vector of shape (n,1)) is a list of reals; a matrix is the list of its rows. An array
  that holds one column per detection or per sample (shape (r,N)) is the list of its N
  columns, so that the transposed array (N,r) is the same list read as rows. Division
  by zero, overflow to infinity and \<open>np.inf\<close> do occur in the program, so the values they
  produce are kept apart from the finite ones.
\<close>

type_synonym vec = "real list"
type_synonym mat = "real list list"

datatype npfloat = Fin real | PInf | NInf | NaN

datatype error = ValueError | LinAlgError | KeyError

text \<open>\<open>a / b\<close> on numpy floats: dividing by zero gives an infinity or nan, not an exception.\<close>

definition np_div :: "real \<Rightarrow> real \<Rightarrow> npfloat" where
  "np_div a b =
     (if b \<noteq> 0 then Fin (a / b)
      else if a = 0 then NaN else if 0 < a then PInf else NInf)"

fun np_mul :: "npfloat \<Rightarrow> real \<Rightarrow> npfloat" where
  "np_mul (Fin a) s = Fin (a * s)"
| "np_mul PInf s = (if 0 < s then PInf else if s < 0 then NInf else NaN)"
| "np_mul NInf s = (if 0 < s then NInf else if s < 0 then PInf else NaN)"
| "np_mul NaN s = NaN"

fun np_sub :: "real \<Rightarrow> npfloat \<Rightarrow> npfloat" where
  "np_sub a (Fin b) = Fin (a - b)"
| "np_sub a PInf = NInf"
| "np_sub a NInf = PInf"
| "np_sub a NaN = NaN"

text \<open>\<open>a < r\<close> for a float \<open>a\<close> that may be infinite and a finite \<open>r\<close>.\<close>

fun np_less :: "npfloat \<Rightarrow> real \<Rightarrow> bool" where
  "np_less (Fin a) r = (a < r)"
| "np_less PInf r = False"
| "np_less NInf r = True"
| "np_less NaN r = False"

fun is_finite :: "npfloat \<Rightarrow> bool" where
  "is_finite (Fin a) = True"
| "is_finite PInf = False"
| "is_finite NInf = False"
| "is_finite NaN = False"

text \<open>Sum and product of two floats that may be infinite or nan.\<close>

fun np_add :: "npfloat \<Rightarrow> npfloat \<Rightarrow> npfloat" where
  "np_add (Fin a) (Fin b) = Fin (a + b)"
| "np_add NaN b = NaN"
| "np_add a NaN = NaN"
| "np_add PInf NInf = NaN"
| "np_add NInf PInf = NaN"
| "np_add PInf b = PInf"
| "np_add a PInf = PInf"
| "np_add NInf b = NInf"
| "np_add a NInf = NInf"

fun np_times :: "npfloat \<Rightarrow> npfloat \<Rightarrow> npfloat" where
  "np_times a (Fin s) = np_mul a s"
| "np_times (Fin s) PInf = np_mul PInf s"
| "np_times (Fin s) NInf = np_mul NInf s"
| "np_times PInf PInf = PInf"
| "np_times PInf NInf = NInf"
| "np_times NInf PInf = NInf"
| "np_times NInf NInf = PInf"
| "np_times NaN b = NaN"
| "np_times a NaN = NaN"

definition dot :: "vec \<Rightarrow> vec \<Rightarrow> real" where
  "dot u v = sum_list (map2 (*) u v)"

text \<open>\<open>np.dot(A, x)\<close> and \<open>A @ x\<close> for a matrix and a column vector.\<close>

definition mat_vec :: "mat \<Rightarrow> vec \<Rightarrow> vec" where
  "mat_vec A v = map (\<lambda>r. dot r v) A"

text \<open>The same product for arrays that may hold infinities and nans.\<close>

definition np_dot :: "npfloat list \<Rightarrow> npfloat list \<Rightarrow> npfloat" where
  "np_dot u v = foldr np_add (map2 np_times u v) (Fin 0)"

definition np_mat_vec :: "npfloat list list \<Rightarrow> npfloat list \<Rightarrow> npfloat list" where
  "np_mat_vec A v = map (\<lambda>r. np_dot r v) A"

text \<open>\<open>A @ B\<close> for two matrices.\<close>

definition mat_mul :: "mat \<Rightarrow> mat \<Rightarrow> mat" where
  "mat_mul A B = map (\<lambda>r. map (\<lambda>c. dot r c) (transpose B)) A"

definition vec_add :: "vec \<Rightarrow> vec \<Rightarrow> vec" where
  "vec_add u v = map2 (+) u v"

definition vec_sub :: "vec \<Rightarrow> vec \<Rightarrow> vec" where
  "vec_sub u v = map2 (-) u v"

definition mat_add :: "mat \<Rightarrow> mat \<Rightarrow> mat" where
  "mat_add A B = map2 vec_add A B"

definition mat_sub :: "mat \<Rightarrow> mat \<Rightarrow> mat" where
  "mat_sub A B = map2 vec_sub A B"

definition mat_scale :: "real \<Rightarrow> mat \<Rightarrow> mat" where
  "mat_scale c A = map (map (\<lambda>a. c * a)) A"

definition eye :: "nat \<Rightarrow> mat" where
  "eye n = map (\<lambda>i. map (\<lambda>j. if i = j then 1 else 0) [0..<n]) [0..<n]"

text \<open>\<open>np.linalg.norm\<close> of a vector.\<close>

definition norm2 :: "vec \<Rightarrow> real" where
  "norm2 v = sqrt (sum_list (map (\<lambda>a. a\<^sup>2) v))"

text \<open>
  The inverse of the 2x2 innovation covariance that the filter's update computes with
  \<open>np.linalg.inv\<close>, in exact arithmetic: a singular matrix raises \<open>LinAlgError\<close>.
\<close>

definition inv2 :: "mat \<Rightarrow> error + mat" where
  "inv2 A =
     (case A of [[a, b], [c, d]] \<Rightarrow>
        (let det = a * d - b * c in
         if det = 0 then Inl LinAlgError
         else Inr [[d / det, - b / det], [- c / det, a / det]])
      | _ \<Rightarrow> Inl LinAlgError)"

section \<open>Motion model\<close>

text \<open>
  The conversion of a float64 value to \<open>np.float32\<close>: rounding to the nearest number with
  a 24-bit significand (ties to the even one) and an exponent of at least \<open>-126\<close>; a
  result of magnitude \<open>2^128\<close> or more is an infinity.
\<close>

definition round_half_even :: "real \<Rightarrow> int" where
  "round_half_even q =
     (let f = \<lfloor>q\<rfloor>; d = q - of_int f
      in if d < 1 / 2 then f else if 1 / 2 < d then f + 1 else if even f then f else f + 1)"

definition float32 :: "real \<Rightarrow> npfloat" where
  "float32 x =
     (if x = 0 then Fin 0
      else
        (let e = max \<lfloor>log 2 \<bar>x\<bar>\<rfloor> (- 126);
             ulp = 2 powr (of_int e - 23);
             r = of_int (round_half_even (x / ulp)) * ulp
         in if 2 ^ 128 \<le> \<bar>r\<bar> then (if 0 < x then PInf else NInf) else Fin r))"

text \<open>\<open>F_matrix(dt)\<close>: the array is built with \<open>dtype=np.float32\<close>.\<close>

definition F_matrix :: "real \<Rightarrow> npfloat list list" where
  "F_matrix dt =
     (let dt2 = 0.5 * dt\<^sup>2 in
      map (map float32)
        [[1, dt, dt2, 0, 0, 0],
         [0, 1, dt, 0, 0, 0],
         [0, 0, 1, 0, 0, 0],
         [0, 0, 0, 1, dt, dt2],
         [0, 0, 0, 0, 1, dt],
         [0, 0, 0, 0, 0, 1]])"

section \<open>Object state estimator\<close>

text \<open>
  The filter object of \<open>filterpy.kalman.KalmanFilter\<close> with the attributes the program
  sets or reads. The state \<open>x\<close> is a column of six entries
  \<open>[x, vx, ax, y, vy, ay]\<close>.
\<close>

record KalmanFilter =
  kf_x :: vec
  kf_P :: mat
  kf_F :: "npfloat list list"
  kf_H :: mat
  kf_R :: mat
  kf_Q :: mat
  kf_alpha_sq :: real

text \<open>
  \<open>Q_discrete_white_noise(dim=3, dt, var, block_size=2)\<close> of filterpy: two copies of the
  3x3 discrete white-noise block on the diagonal, scaled by \<open>var\<close>.
\<close>

definition Q_discrete_white_noise :: "real \<Rightarrow> real \<Rightarrow> mat" where
  "Q_discrete_white_noise dt var =
     mat_scale var
       [[0.25 * dt^4, 0.5 * dt^3, 0.5 * dt\<^sup>2, 0, 0, 0],
        [0.5 * dt^3, dt\<^sup>2, dt, 0, 0, 0],
        [0.5 * dt\<^sup>2, dt, 1, 0, 0, 0],
        [0, 0, 0, 0.25 * dt^4, 0.5 * dt^3, 0.5 * dt\<^sup>2],
        [0, 0, 0, 0.5 * dt^3, dt\<^sup>2, dt],
        [0, 0, 0, 0.5 * dt\<^sup>2, dt, 1]]"

text \<open>
  \<open>object_tracker(x_init, dt)\<close>. The unpacking \<open>x, y = x_init\<close> raises \<open>ValueError\<close>
  unless \<open>x_init\<close> has exactly two entries.
\<close>

definition object_tracker :: "vec \<Rightarrow> real \<Rightarrow> error + KalmanFilter" where
  "object_tracker x_init dt =
     (case x_init of
        [x, y] \<Rightarrow>
          Inr \<lparr> kf_x = [x, 0, 0, y, 0, 0],
                kf_P = mat_scale 0.5
                  [[1, 0, 0, 0, 0, 0],
                   [0, 2, 0, 0, 0, 0],
                   [0, 0, 4, 0, 0, 0],
                   [0, 0, 0, 1, 0, 0],
                   [0, 0, 0, 0, 2, 0],
                   [0, 0, 0, 0, 0, 4]],
                kf_F = F_matrix dt,
                kf_H = [[1, 0, 0, 0, 0, 0],
                        [0, 0, 0, 1, 0, 0]],
                kf_R = [[2\<^sup>2, 0], [0, 2\<^sup>2]],
                kf_Q = Q_discrete_white_noise dt (0.1\<^sup>2),
                kf_alpha_sq = 1 \<rparr>
      | _ \<Rightarrow> Inl ValueError)"

text \<open>
  The filter state is modelled over the reals, so the model follows the program as long
  as the entries of \<open>F\<close> are finite (a step whose \<open>dt\<^sup>2 / 2\<close> is in the float32 range);
  an entry that is not finite is read as 0.
\<close>

definition finite_entries :: "npfloat list list \<Rightarrow> mat" where
  "finite_entries A = map (map (\<lambda>a. case a of Fin r \<Rightarrow> r | _ \<Rightarrow> 0)) A"

text \<open>
  \<open>KalmanFilter.predict()\<close> of filterpy, without control input:
  \<open>x = F x\<close>, \<open>P = alpha_sq * F P F\<^sup>T + Q\<close>.
\<close>

definition KalmanFilter_predict :: "KalmanFilter \<Rightarrow> KalmanFilter" where
  "KalmanFilter_predict k =
     (let F = finite_entries (kf_F k)
      in k \<lparr> kf_x := mat_vec F (kf_x k),
            kf_P := mat_add
                      (mat_scale (kf_alpha_sq k) (mat_mul (mat_mul F (kf_P k)) (transpose F)))
                      (kf_Q k) \<rparr>)"

text \<open>
  \<open>KalmanFilter.update(z)\<close> of filterpy. Without a measurement the state is kept. A
  measurement that is not of the filter's measurement size raises \<open>ValueError\<close>, and the
  inversion of a singular innovation covariance raises \<open>LinAlgError\<close>. Otherwise
  \<open>y = z - H x\<close>, \<open>S = H P H\<^sup>T + R\<close>, \<open>K = P H\<^sup>T S\<^sup>-\<^sup>1\<close>, \<open>x = x + K y\<close> and
  \<open>P = (I - K H) P (I - K H)\<^sup>T + K R K\<^sup>T\<close>.
\<close>

definition KalmanFilter_update :: "KalmanFilter \<Rightarrow> vec option \<Rightarrow> error + KalmanFilter" where
  "KalmanFilter_update k z_opt =
     (case z_opt of
        None \<Rightarrow> Inr k
      | Some z \<Rightarrow>
          (if length z \<noteq> length (kf_H k) then Inl ValueError
           else
             (let y = vec_sub z (mat_vec (kf_H k) (kf_x k));
                  PHT = mat_mul (kf_P k) (transpose (kf_H k));
                  S = mat_add (mat_mul (kf_H k) PHT) (kf_R k)
              in (case inv2 S of
                    Inl e \<Rightarrow> Inl e
                  | Inr SI \<Rightarrow>
                      (let K = mat_mul PHT SI;
                           I_KH = mat_sub (eye (length (kf_x k))) (mat_mul K (kf_H k))
                       in Inr (k \<lparr> kf_x := vec_add (kf_x k) (mat_vec K y),
                                    kf_P := mat_add
                                      (mat_mul (mat_mul I_KH (kf_P k)) (transpose I_KH))
                                      (mat_mul (mat_mul K (kf_R k)) (transpose K)) \<rparr>))))))"

record PointWorldObject =
  kf :: KalmanFilter
  xy :: "vec option"
  vxvy :: "vec option"

definition PointWorldObject_init :: "vec \<Rightarrow> real \<Rightarrow> error + PointWorldObject" where
  "PointWorldObject_init xyz dt =
     (case object_tracker (take 2 xyz) dt of
        Inl e \<Rightarrow> Inl e
      | Inr k \<Rightarrow> Inr \<lparr> kf = k, xy = None, vxvy = None \<rparr>)"

definition PointWorldObject_update :: "PointWorldObject \<Rightarrow> vec option \<Rightarrow> error + PointWorldObject" where
  "PointWorldObject_update self location =
     (case KalmanFilter_update (KalmanFilter_predict (kf self)) location of
        Inl e \<Rightarrow> Inl e
      | Inr k \<Rightarrow>
          Inr \<lparr> kf = k,
                xy = Some (mat_vec (kf_H k) (kf_x k)),
                vxvy = Some (mat_vec [[0, 1, 0, 0, 0, 0], [0, 0, 0, 0, 1, 0]] (kf_x k)) \<rparr>)"

definition location :: "PointWorldObject \<Rightarrow> vec option" where
  "location self = xy self"

definition distance :: "PointWorldObject \<Rightarrow> npfloat" where
  "distance self = (case xy self of None \<Rightarrow> PInf | Some p \<Rightarrow> Fin (norm2 p))"

definition relative_speed :: "PointWorldObject \<Rightarrow> real" where
  "relative_speed self = (case vxvy self of None \<Rightarrow> 0 | Some v \<Rightarrow> norm2 v)"

text \<open>
  The \<open>while t < length\<close> loop of \<open>future_path\<close>. It need not terminate (\<open>dt \<le> 0\<close>), so
  it is a partial function: \<open>None\<close> is the loop that runs forever.
\<close>

partial_function (option) future_path_loop ::
    "npfloat list list \<Rightarrow> real \<Rightarrow> real \<Rightarrow> real \<Rightarrow> npfloat list \<Rightarrow> npfloat list list
      \<Rightarrow> npfloat list list option" where
  "future_path_loop F dt len t x X =
     (if t < len
      then future_path_loop F dt len (t + dt) (np_mat_vec F x) (X @ [np_mat_vec F x])
      else Some X)"

text \<open>
  A shapely \<open>LineString\<close> is the list of its coordinates; the constructor rejects a
  single coordinate with \<open>ValueError\<close>.
\<close>

datatype LineString = LineString (coords: "npfloat list list")

definition LineString_new :: "npfloat list list \<Rightarrow> error + LineString" where
  "LineString_new cs = (if length cs = 1 then Inl ValueError else Inr (LineString cs))"

text \<open>
  \<open>future_path\<close>: \<open>np.hstack(X)\<close> has the collected states as its columns, and
  \<open>(H @ hstack(X)).T\<close> has one row \<open>H x\<close> per collected state. The products with the
  float32 matrix \<open>F\<close> can hold infinities and nans.
\<close>

definition future_path :: "PointWorldObject \<Rightarrow> real \<Rightarrow> real \<Rightarrow> (error + LineString) option" where
  "future_path self len dt =
     (let x = map Fin (kf_x (kf self));
          F = F_matrix dt;
          t = 0;
          X = [x]
      in (case future_path_loop F dt len t x X of
            None \<Rightarrow> None
          | Some X' \<Rightarrow>
              Some (LineString_new (map (np_mat_vec (map (map Fin) (kf_H (kf self)))) X'))))"

section \<open>Reference-point projector\<close>

text \<open>
  Modelled from the spec: the \<open>Camera\<close> class of the repository's \<open>geometry\<close> module.
  The program reads its rectified intrinsic matrix \<open>K_new\<close> (3x3) and its cached inverse
  extrinsic transform \<open>RT_inv\<close> (3x4), and calls \<open>rectify_points\<close>, which applies the
  camera's distortion correction to each reference pixel.
\<close>

record Camera =
  K_new :: mat
  RT_inv :: mat
  rectify_point :: "vec \<Rightarrow> vec"

definition rectify_points :: "Camera \<Rightarrow> vec list \<Rightarrow> vec list" where
  "rectify_points camera pts = map (rectify_point camera) pts"

text \<open>
  \<open>get_reference_points\<close>. A dict is the list of its items in insertion order; a tracker
  is represented by the bounding box \<open>[x1, y1, x2, y2]\<close> that its \<open>get_state()\<close> returns.
  The division \<open>t = (n O) / (n S)\<close> is numpy's, elementwise. The function \<open>inv\<close> that the
  program calls is numpy's \<open>np.linalg.inv\<close>; it is the parameter \<open>linalg_inv\<close>: it
  returns a matrix or raises.
\<close>

definition get_reference_points ::
    "(mat \<Rightarrow> error + mat) \<Rightarrow> (int \<times> vec) list \<Rightarrow> Camera \<Rightarrow> bool
      \<Rightarrow> error + (int \<times> npfloat list) list" where
  "get_reference_points linalg_inv trackers camera is_rectified =
     (if trackers = [] then Inr []
      else
        (let R = [[0.5, 0, 0.5, 0],
                  [0, 0, 0, 1]];
             bb = map snd trackers;
             img_rp = map (mat_vec R) bb;
             img_rp = (if \<not> is_rectified then rectify_points camera img_rp else img_rp);
             img_rp_h = map (\<lambda>c. c @ [1]) img_rp
         in (case linalg_inv (K_new camera) of
               Inl e \<Rightarrow> Inl e
             | Inr K_inv \<Rightarrow>
                 (let norm_rp = map (mat_vec K_inv) img_rp_h;
                      norm_rp = map (\<lambda>c. c @ [1]) norm_rp;
                      X = map (mat_vec (RT_inv camera)) norm_rp;
                      Oc = map last (RT_inv camera);
                      S = map (\<lambda>c. vec_sub c Oc) X;
                      plane_normal = [0, 0, 1];
                      t = map (\<lambda>c. np_div (dot plane_normal (take 3 Oc))
                                         (dot plane_normal (take 3 c))) S;
                      world_rp = map2 (\<lambda>tc c. map2 (\<lambda>a s. np_sub a (np_mul tc s)) Oc c) t S
                  in Inr (zip (map fst trackers) world_rp)))))"

section \<open>Collision guard\<close>

type_synonym Polygon = "vec list"

record ForwardCollisionGuard =
  dt :: real
  objects :: "(int \<times> PointWorldObject) list"
  danger_zone :: Polygon
  vehicle_zone :: Polygon
  safety_radius :: real
  prediction_length :: real
  prediction_step :: real

definition ForwardCollisionGuard_init ::
    "Polygon \<Rightarrow> Polygon \<Rightarrow> real \<Rightarrow> real \<Rightarrow> real \<Rightarrow> real \<Rightarrow> ForwardCollisionGuard" where
  "ForwardCollisionGuard_init dz vz radius plen pstep d =
     \<lparr> dt = d, objects = [], danger_zone = dz, vehicle_zone = vz,
       safety_radius = radius, prediction_length = plen, prediction_step = pstep \<rparr>"

text \<open>First loop of \<open>update\<close>: tracked identities that are not in \<open>ref_points\<close> are popped.\<close>

fun sync_lost :: "(int \<times> vec) list \<Rightarrow> int list \<Rightarrow> (int \<times> PointWorldObject) list
    \<Rightarrow> (int \<times> PointWorldObject) list" where
  "sync_lost ref_points [] objs = objs"
| "sync_lost ref_points (tid # tids) objs =
     (if tid \<notin> fst ` set ref_points
      then sync_lost ref_points tids (AList.delete tid objs)
      else sync_lost ref_points tids objs)"

text \<open>
  Second loop of \<open>update\<close>: a new identity gets a new object, a tracked one is updated
  with the first two coordinates of its point. An exception ends the loop.
\<close>

fun sync_points :: "real \<Rightarrow> (int \<times> vec) list \<Rightarrow> int list \<Rightarrow> (int \<times> PointWorldObject) list
    \<Rightarrow> error + (int \<times> PointWorldObject) list" where
  "sync_points d ref_points [] objs = Inr objs"
| "sync_points d ref_points (tid # tids) objs =
     (case map_of ref_points tid of
        None \<Rightarrow> Inl KeyError
      | Some p \<Rightarrow>
         (case map_of objs tid of
            None \<Rightarrow>
              (case PointWorldObject_init p d of
                 Inl e \<Rightarrow> Inl e
               | Inr obj \<Rightarrow> sync_points d ref_points tids (AList.update tid obj objs))
          | Some obj \<Rightarrow>
              (case PointWorldObject_update obj (Some (take 2 p)) of
                 Inl e \<Rightarrow> Inl e
               | Inr obj' \<Rightarrow> sync_points d ref_points tids (AList.update tid obj' objs))))"

definition update :: "ForwardCollisionGuard \<Rightarrow> (int \<times> vec) list \<Rightarrow> error + ForwardCollisionGuard" where
  "update self ref_points =
     (let objs = sync_lost ref_points (map fst (objects self)) (objects self)
      in (case sync_points (dt self) ref_points (map fst ref_points) objs of
            Inl e \<Rightarrow> Inl e
          | Inr objs' \<Rightarrow> Inr (self \<lparr> objects := objs' \<rparr>)))"

text \<open>
  \<open>dangerous_objects\<close>: the dict comprehension over \<open>self.objects.items()\<close>. The
  conjunction is short-circuit, so \<open>future_path\<close> is only run for an object within the
  safety radius. shapely's \<open>intersects\<close> is the parameter \<open>intersects\<close>. The result is
  \<open>None\<close> when a \<open>future_path\<close> loop does not terminate.
\<close>

fun dangerous_items :: "(LineString \<Rightarrow> Polygon \<Rightarrow> bool) \<Rightarrow> ForwardCollisionGuard
    \<Rightarrow> (int \<times> PointWorldObject) list \<Rightarrow> (error + (int \<times> PointWorldObject) list) option" where
  "dangerous_items intersects self [] = Some (Inr [])"
| "dangerous_items intersects self ((tid, obj) # items) =
     (if np_less (distance obj) (safety_radius self)
      then
        (case future_path obj (prediction_length self) (prediction_step self) of
           None \<Rightarrow> None
         | Some (Inl e) \<Rightarrow> Some (Inl e)
         | Some (Inr path) \<Rightarrow>
            (case dangerous_items intersects self items of
               None \<Rightarrow> None
             | Some (Inl e) \<Rightarrow> Some (Inl e)
             | Some (Inr rest) \<Rightarrow>
                 Some (Inr (if intersects path (danger_zone self)
                            then (tid, obj) # rest else rest))))
      else dangerous_items intersects self items)"

definition dangerous_objects :: "(LineString \<Rightarrow> Polygon \<Rightarrow> bool) \<Rightarrow> ForwardCollisionGuard
    \<Rightarrow> (error + (int \<times> PointWorldObject) list) option" where
  "dangerous_objects intersects self = dangerous_items intersects self (objects self)"

section \<open>Guard states\<close>

text \<open>
  The body of the second loop of \<open>update\<close> for one identity with point \<open>p\<close>: \<open>old\<close> is
  the registry entry of the identity, if there is one.
\<close>

definition sync_one :: "real \<Rightarrow> vec \<Rightarrow> PointWorldObject option \<Rightarrow> error + PointWorldObject" where
  "sync_one d p old =
     (case old of None \<Rightarrow> PointWorldObject_init p d
      | Some obj \<Rightarrow> PointWorldObject_update obj (Some (take 2 p)))"

text \<open>
  The states of a guard: the constructed one, and the one left by a call of \<open>update\<close>
  that returned.
\<close>

inductive reachable :: "ForwardCollisionGuard \<Rightarrow> bool" where
  init: "reachable (ForwardCollisionGuard_init dz vz radius plen pstep d)"
| step: "reachable g \<Longrightarrow> update g ref_points = Inr g' \<Longrightarrow> reachable g'"

section \<open>Geometry of the projection\<close>

text \<open>
  The terms of the specification of the projector: the reference pixel of a bounding
  box (its bottom mid-point), the world-space origin \<open>O\<close> of the camera, and the direction
  \<open>S = X - O\<close> of the ray through a pixel.
\<close>

definition reference_pixel :: "vec \<Rightarrow> vec" where
  "reference_pixel bb = (case bb of [x1, y1, x2, y2] \<Rightarrow> [(x1 + x2) / 2, y2] | _ \<Rightarrow> [])"

definition camera_origin :: "Camera \<Rightarrow> vec" where
  "camera_origin camera = map last (RT_inv camera)"

definition ray_direction :: "Camera \<Rightarrow> mat \<Rightarrow> vec \<Rightarrow> vec" where
  "ray_direction camera K_inv pixel =
     vec_sub (mat_vec (RT_inv camera) (mat_vec K_inv (pixel @ [1]) @ [1]))
             (camera_origin camera)"

section \<open>Example data\<close>

definition example_object :: PointWorldObject where
  "example_object =
     \<lparr> kf = \<lparr> kf_x = [3, 1, 0, 4, -2, 0],
              kf_P = eye 6,
              kf_F = F_matrix 1,
              kf_H = [[1, 0, 0, 0, 0, 0], [0, 0, 0, 1, 0, 0]],
              kf_R = [[4, 0], [0, 4]],
              kf_Q = Q_discrete_white_noise 1 (1 / 100),
              kf_alpha_sq = 1 \<rparr>,
       xy = Some [3, 4], vxvy = Some [1, -2] \<rparr>"

text \<open>
  An inversion routine for the examples: the inverse of a 3x3 matrix in exact arithmetic.
  It is what \<open>np.linalg.inv\<close> returns where its elimination meets no rounding, as on the
  two matrices it is applied to below: the identity, and \<open>diag(1, 1, 0)\<close>, whose last
  pivot is exactly zero.
\<close>

definition det3 :: "mat \<Rightarrow> real" where
  "det3 A =
     (case A of [[a, b, c], [d, e, f], [g, h, i]] \<Rightarrow>
        a * (e * i - f * h) - b * (d * i - f * g) + c * (d * h - e * g)
      | _ \<Rightarrow> 0)"

definition exact_inv :: "mat \<Rightarrow> error + mat" where
  "exact_inv A =
     (case A of [[a, b, c], [d, e, f], [g, h, i]] \<Rightarrow>
        (let det = det3 A in
         if det = 0 then Inl LinAlgError
         else Inr [[(e * i - f * h) / det, (c * h - b * i) / det, (b * f - c * e) / det],
                   [(f * g - d * i) / det, (a * i - c * g) / det, (c * d - a * f) / det],
                   [(d * h - e * g) / det, (b * g - a * h) / det, (a * e - b * d) / det]])
      | _ \<Rightarrow> Inl LinAlgError)"

text \<open>A camera at height 1.5 that looks along the ground: world z is minus the image y axis.\<close>

definition horizon_camera :: Camera where
  "horizon_camera =
     \<lparr> K_new = [[1, 0, 0], [0, 1, 0], [0, 0, 1]],
       RT_inv = [[1, 0, 0, 0], [0, 0, 1, 0], [0, -1, 0, 1.5]],
       rectify_point = (\<lambda>p. p) \<rparr>"


text \<open>
  A stand-in for shapely's \<open>intersects\<close> in the examples: the path has a vertex that
  is a vertex of the zone.
\<close>

definition vertex_hit :: "LineString \<Rightarrow> Polygon \<Rightarrow> bool" where
  "vertex_hit path zone = (set (coords path) \<inter> set (map (map Fin) zone) \<noteq> {})"

text \<open>The object that \<open>PointWorldObject([3, 4, 0], 1)\<close> constructs.\<close>

definition new_object :: PointWorldObject where
  "new_object =
     \<lparr> kf = \<lparr> kf_x = [3, 0, 0, 4, 0, 0],
              kf_P = mat_scale 0.5
                  [[1, 0, 0, 0, 0, 0],
                   [0, 2, 0, 0, 0, 0],
                   [0, 0, 4, 0, 0, 0],
                   [0, 0, 0, 1, 0, 0],
                   [0, 0, 0, 0, 2, 0],
                   [0, 0, 0, 0, 0, 4]],
              kf_F = F_matrix 1,
              kf_H = [[1, 0, 0, 0, 0, 0], [0, 0, 0, 1, 0, 0]],
              kf_R = [[2\<^sup>2, 0], [0, 2\<^sup>2]],
              kf_Q = Q_discrete_white_noise 1 (0.1\<^sup>2),
              kf_alpha_sq = 1 \<rparr>,
       xy = None, vxvy = None \<rparr>"





section \<open>Theorems\<close>

subsection \<open>Conversion to float32\<close>

lemma float32_round:
  assumes "x \<noteq> 0" and "2 powr of_int e \<le> \<bar>x\<bar>" and "\<bar>x\<bar> < 2 powr (of_int e + 1)"
    and "- 126 \<le> e"
  shows "float32 x =
    (let ulp = 2 powr (of_int e - 23);
         r = of_int (round_half_even (x / ulp)) * ulp
     in if 2 ^ 128 \<le> \<bar>r\<bar> then (if 0 < x then PInf else NInf) else Fin r)"
proof -
  have "\<lfloor>log 2 \<bar>x\<bar>\<rfloor> = e" using assms by (simp add: floor_log_eq_powr_iff)
  then show ?thesis using assms by (simp add: float32_def Let_def max_def)
qed

lemma float32_0: "float32 0 = Fin 0"
  by (simp add: float32_def)

lemma float32_1: "float32 1 = Fin 1"
  by (subst float32_round[where e = "0"]) (simp_all add: round_half_even_def Let_def powr_neg_numeral)

lemma float32_half: "float32 (1 / 2) = Fin (1 / 2)"
  by (subst float32_round[where e = "-1"]) (simp_all add: round_half_even_def Let_def powr_neg_numeral)






lemma F_matrix_1:
  "F_matrix 1 = map (map Fin)
      [[1, 1, 1 / 2, 0, 0, 0],
       [0, 1, 1, 0, 0, 0],
       [0, 0, 1, 0, 0, 0],
       [0, 0, 0, 1, 1, 1 / 2],
       [0, 0, 0, 0, 1, 1],
       [0, 0, 0, 0, 0, 1]]"
  by (simp add: F_matrix_def Let_def float32_0 float32_1 float32_half)

lemma finite_entries_Fin: "finite_entries (map (map Fin) A) = A"
  by (simp add: finite_entries_def comp_def)

lemma np_dot_Fin: "np_dot (map Fin u) (map Fin v) = Fin (dot u v)"
proof (induction u arbitrary: v)
  case Nil
  show ?case by (simp add: np_dot_def dot_def)
next
  case (Cons a u)
  show ?case
  proof (cases v)
    case Nil
    then show ?thesis by (simp add: np_dot_def dot_def)
  next
    case (Cons b w)
    from Cons.IH[of w] show ?thesis
      by (simp add: np_dot_def dot_def Cons)
  qed
qed

lemma np_mat_vec_Fin: "np_mat_vec (map (map Fin) A) (map Fin v) = map Fin (mat_vec A v)"
  by (simp add: np_mat_vec_def mat_vec_def np_dot_Fin comp_def)




subsection \<open>The rollout loop\<close>

lemma ceil_step:
  fixes len t d :: real
  assumes "0 < d" "t < len"
  shows "nat \<lceil>(len - (t + d)) / d\<rceil> + 1 = nat \<lceil>(len - t) / d\<rceil>"
proof -
  have "(len - (t + d)) / d = (len - t) / d - 1"
    using assms by (simp add: field_simps)
  moreover have "0 < \<lceil>(len - t) / d\<rceil>"
    using assms by (simp add: field_simps)
  ultimately show ?thesis by (simp add: nat_diff_distrib)
qed

lemma upt_shift: "[1..<Suc (Suc n)] = 1 # map Suc [1..<Suc n]"
proof -
  have "[1..<Suc (Suc n)] = 1 # [Suc 1..<Suc (Suc n)]"
    by (simp add: upt_conv_Cons del: upt_Suc)
  also have "[Suc 1..<Suc (Suc n)] = map Suc [1..<Suc n]"
    by (simp only: map_Suc_upt)
  finally show ?thesis .
qed

lemma future_path_loop_steps:
  assumes "0 < d"
  shows "nat \<lceil>(len - t) / d\<rceil> = n \<Longrightarrow>
    future_path_loop Fm d len t x X
      = Some (X @ map (\<lambda>k. (np_mat_vec Fm ^^ k) x) [1..<Suc n])"
proof (induction n arbitrary: t x X)
  case 0
  then have "\<not> t < len" using assms
    by (simp add: field_simps not_less)
  then show ?case by (subst future_path_loop.simps) simp
next
  case (Suc n)
  have "0 < nat \<lceil>(len - t) / d\<rceil>" using Suc.prems by simp
  then have "0 < (len - t) / d" by simp
  then have lt: "t < len" using assms by (simp add: zero_less_divide_iff)
  have "nat \<lceil>(len - (t + d)) / d\<rceil> = n"
    using ceil_step[OF assms lt] Suc.prems by simp
  from Suc.IH[OF this] have
    "future_path_loop Fm d len (t + d) (np_mat_vec Fm x) (X @ [np_mat_vec Fm x])
       = Some ((X @ [np_mat_vec Fm x]) @ map (\<lambda>k. (np_mat_vec Fm ^^ k) (np_mat_vec Fm x)) [1..<Suc n])" .
  moreover have "map (\<lambda>k. (np_mat_vec Fm ^^ k) x) [1..<Suc (Suc n)]
     = np_mat_vec Fm x # map (\<lambda>k. (np_mat_vec Fm ^^ k) (np_mat_vec Fm x)) [1..<Suc n]"
    by (simp only: upt_shift) (simp add: funpow_swap1 comp_def del: upt_Suc)
  ultimately show ?case using lt
    by (subst future_path_loop.simps) simp
qed



lemma ceil_pos:
  fixes len step :: real
  assumes "0 < len" "0 < step"
  shows "0 < nat \<lceil>len / step\<rceil>"
proof -
  have "0 < len / step" using assms by (rule divide_pos_pos)
  then have "0 < \<lceil>len / step\<rceil>" by (simp only: zero_less_ceiling)
  then show ?thesis by (simp only: zero_less_nat_eq)
qed

lemma future_path_points:
  assumes "0 < step" and n: "nat \<lceil>len / step\<rceil> = Suc m"
  shows "future_path self len step =
    Some (Inr (LineString (map (\<lambda>k. np_mat_vec (map (map Fin) (kf_H (kf self)))
                 ((np_mat_vec (F_matrix step) ^^ k) (map Fin (kf_x (kf self)))))
               [0..<Suc (Suc m)])))"
proof -
  have "nat \<lceil>(len - 0) / step\<rceil> = Suc m" using n by simp
  from future_path_loop_steps[OF assms(1) this]
  have loop: "future_path_loop (F_matrix step) step len 0 (map Fin (kf_x (kf self)))
        [map Fin (kf_x (kf self))]
      = Some ([map Fin (kf_x (kf self))]
          @ map (\<lambda>k. (np_mat_vec (F_matrix step) ^^ k) (map Fin (kf_x (kf self))))
              [1..<Suc (Suc m)])" .
  have idx: "[0..<Suc (Suc m)] = 0 # [1..<Suc (Suc m)]"
    by (simp add: upt_conv_Cons del: upt_Suc)
  show ?thesis
    unfolding future_path_def Let_def loop idx
    by (simp add: LineString_new_def del: upt_Suc)
qed

text \<open>
  C4: for positive \<open>length\<close> and \<open>step\<close>, \<open>future_path\<close> returns a polyline of
  \<open>ceil(length/step) + 1\<close> points; the point of index \<open>k\<close> is the position \<open>H (F\<^sup>k x)\<close> read
  from the state after \<open>k\<close> applications of the float32 matrix \<open>F_matrix step\<close> (so the
  first one is the current position \<open>H x\<close>); the last sample is taken at the first multiple of \<open>step\<close> that
  reaches \<open>length\<close>, less than one step beyond it; and the result is determined by the
  filter state and the two arguments.
\<close>

theorem future_path_samples:
  assumes "0 < len" and "0 < step"
  shows "\<exists>pts. future_path self len step = Some (Inr (LineString pts))
     \<and> length pts = nat \<lceil>len / step\<rceil> + 1
     \<and> pts ! 0 = map Fin (mat_vec (kf_H (kf self)) (kf_x (kf self)))
     \<and> (\<forall>k \<le> nat \<lceil>len / step\<rceil>.
          pts ! k = np_mat_vec (map (map Fin) (kf_H (kf self)))
                      ((np_mat_vec (F_matrix step) ^^ k) (map Fin (kf_x (kf self)))))
     \<and> len \<le> real (nat \<lceil>len / step\<rceil>) * step
     \<and> real (nat \<lceil>len / step\<rceil>) * step < len + step
     \<and> (\<forall>other. kf other = kf self \<longrightarrow> future_path other len step = future_path self len step)"
proof -
  have pos: "0 < nat \<lceil>len / step\<rceil>" using assms by (rule ceil_pos)
  then obtain m where n: "nat \<lceil>len / step\<rceil> = Suc m"
    using gr0_implies_Suc by blast
  let ?pts = "map (\<lambda>k. np_mat_vec (map (map Fin) (kf_H (kf self)))
                 ((np_mat_vec (F_matrix step) ^^ k) (map Fin (kf_x (kf self))))) [0..<Suc (Suc m)]"
  have fp: "future_path self len step = Some (Inr (LineString ?pts))"
    by (rule future_path_points[OF assms(2) n])
  have len_pts: "length ?pts = Suc m + 1" by simp
  have nth: "?pts ! k = np_mat_vec (map (map Fin) (kf_H (kf self)))
                 ((np_mat_vec (F_matrix step) ^^ k) (map Fin (kf_x (kf self))))"
    if "k \<le> Suc m" for k
  proof -
    have "k < length [0..<Suc (Suc m)]" using that by simp
    then show ?thesis by (simp only: nth_map nth_upt length_upt) simp
  qed
  have first: "?pts ! 0 = map Fin (mat_vec (kf_H (kf self)) (kf_x (kf self)))"
    using nth[of 0] by (simp add: np_mat_vec_Fin)
  have q: "0 \<le> \<lceil>len / step\<rceil>" using pos by linarith
  have r: "real (Suc m) = real_of_int \<lceil>len / step\<rceil>"
    using q n by (metis of_nat_nat)
  have up: "len \<le> real (Suc m) * step"
  proof -
    have "len / step \<le> real_of_int \<lceil>len / step\<rceil>" by (rule le_of_int_ceiling)
    then have "len \<le> real_of_int \<lceil>len / step\<rceil> * step"
      using assms(2) by (simp only: pos_divide_le_eq)
    then show ?thesis unfolding r .
  qed
  have lo: "real (Suc m) * step < len + step"
  proof -
    have "real_of_int \<lceil>len / step\<rceil> < len / step + 1"
      using ceiling_correct[of "len / step"] by linarith
    then have "real_of_int \<lceil>len / step\<rceil> * step < (len / step + 1) * step"
      using assms(2) by (simp only: mult_less_cancel_right_pos)
    also have "(len / step + 1) * step = len + step"
      using assms(2) by (simp add: field_simps)
    finally show ?thesis unfolding r .
  qed
  have det: "future_path other len step = future_path self len step" if "kf other = kf self" for other
    unfolding future_path_def that by (rule refl)
  show ?thesis
    unfolding n using fp len_pts first nth up lo det by blast
qed

theorem future_path_samples_witness:
  "(0::real) < 1 \<and> (0::real) < 1 / 10
   \<and> (\<exists>pts. future_path example_object 1 (1 / 10) = Some (Inr (LineString pts))
        \<and> length pts = 11 \<and> pts ! 0 = [Fin 3, Fin 4])"
proof -
  have h1: "(0::real) < 1" and h2: "(0::real) < 1 / 10" by simp_all
  have c: "nat \<lceil>(1::real) / (1 / 10)\<rceil> = 10" by simp
  have p0: "mat_vec (kf_H (kf example_object)) (kf_x (kf example_object)) = [3, 4]"
    by (simp add: example_object_def mat_vec_def dot_def)
  from future_path_samples[OF h1 h2, of example_object] obtain pts where
    "future_path example_object 1 (1 / 10) = Some (Inr (LineString pts))"
    "length pts = nat \<lceil>(1::real) / (1 / 10)\<rceil> + 1"
    "pts ! 0 = map Fin (mat_vec (kf_H (kf example_object)) (kf_x (kf example_object)))"
    by blast
  then show ?thesis using h1 h2 unfolding c p0 by auto
qed

subsection \<open>Distance\<close>

lemma norm2_pair: "norm2 [a, b] = sqrt (a\<^sup>2 + b\<^sup>2)"
  by (simp add: norm2_def)

text \<open>
  C5: \<open>distance\<close> is the Euclidean norm of the position \<open>xy\<close> stored by the last update,
  which is the position \<open>H x\<close> of the filter state; an object that has been constructed and
  not yet updated has distance infinity, which is below no safety radius.
\<close>

theorem distance_norm_or_inf:
  "(PointWorldObject_init xyz d = Inr new \<longrightarrow> distance new = PInf \<and> \<not> np_less (distance new) r)
   \<and> (PointWorldObject_update self loc = Inr upd \<longrightarrow>
        distance upd = Fin (norm2 (mat_vec (kf_H (kf upd)) (kf_x (kf upd)))))
   \<and> (xy self = Some [a, b] \<longrightarrow> distance self = Fin (sqrt (a\<^sup>2 + b\<^sup>2)))
   \<and> (xy self = None \<longrightarrow> distance self = PInf)"
  by (auto simp: PointWorldObject_init_def PointWorldObject_update_def distance_def norm2_pair
           split: sum.splits)

lemma sqrt_25: "sqrt 25 = 5"
  by (rule real_sqrt_unique) simp_all

lemma example_init_update:
  "\<exists>new. PointWorldObject_init [3, 4, 0] 1 = Inr new \<and> xy new = None
     \<and> (\<exists>upd. PointWorldObject_update new (Some [3, 4]) = Inr upd
           \<and> kf_H (kf upd) = [[1, 0, 0, 0, 0, 0], [0, 0, 0, 1, 0, 0]]
           \<and> kf_x (kf upd) = [3, 0, 0, 4, 0, 0])"
  by (simp add: PointWorldObject_init_def object_tracker_def PointWorldObject_update_def
      KalmanFilter_update_def KalmanFilter_predict_def F_matrix_1 finite_entries_def
      Q_discrete_white_noise_def
      mat_scale_def mat_mul_def mat_add_def mat_sub_def vec_add_def vec_sub_def mat_vec_def
      dot_def inv2_def eye_def Let_def power2_eq_square)

theorem distance_norm_or_inf_witness:
  "\<exists>new upd. PointWorldObject_init [3, 4, 0] 1 = Inr new
     \<and> distance new = PInf \<and> \<not> np_less (distance new) 25
     \<and> PointWorldObject_update new (Some [3, 4]) = Inr upd
     \<and> distance upd = Fin 5
     \<and> xy example_object = Some [3, 4] \<and> distance example_object = Fin 5
     \<and> xy new = None"
proof -
  from example_init_update obtain new upd where
    i: "PointWorldObject_init [3, 4, 0] 1 = Inr new" and n: "xy new = None"
    and u: "PointWorldObject_update new (Some [3, 4]) = Inr upd"
    and h: "kf_H (kf upd) = [[1, 0, 0, 0, 0, 0], [0, 0, 0, 1, 0, 0]]"
    and x: "kf_x (kf upd) = [3, 0, 0, 4, 0, 0]"
    by blast
  have e: "xy example_object = Some [3, 4]" by (simp add: example_object_def)
  note T = distance_norm_or_inf[of "[3, 4, 0]" 1 new 25 new "Some [3, 4]" upd 3 4]
  note T' = distance_norm_or_inf[of "[3, 4, 0]" 1 new 25 example_object "Some [3, 4]" upd 3 4]
  have d1: "distance new = PInf" "\<not> np_less (distance new) 25" using T i by simp_all
  have "distance upd = Fin (norm2 (mat_vec (kf_H (kf upd)) (kf_x (kf upd))))" using T u by simp
  then have d2: "distance upd = Fin 5"
    unfolding h x by (simp add: mat_vec_def dot_def norm2_def sqrt_25)
  have d3: "distance example_object = Fin 5" using T' e by (simp add: sqrt_25)
  show ?thesis using i n u d1 d2 d3 e by blast
qed

subsection \<open>Projection to the ground plane\<close>

lemma map2_map_same: "map2 f (map g xs) xs = map (\<lambda>x. f (g x) x) xs"
  by (induction xs) simp_all

lemma length3E:
  assumes "length (v :: 'a list) = 3"
  obtains a b c where "v = [a, b, c]"
proof -
  from assms obtain a v1 where "v = a # v1" "length v1 = 2" by (cases v) auto
  moreover then obtain b v2 where "v1 = b # v2" "length v2 = 1" by (cases v1) auto
  moreover then obtain c where "v2 = [c]" by (cases v2) auto
  ultimately show ?thesis using that by simp
qed

lemma length_ray_direction:
  "length (RT_inv camera) = 3 \<Longrightarrow> length (ray_direction camera K_inv pixel) = 3"
  by (simp add: ray_direction_def camera_origin_def vec_sub_def mat_vec_def)

lemma ground_point_z:
  assumes "length Oc = 3" "length S = 3" "dot [0, 0, 1] S \<noteq> 0"
  shows "map2 (\<lambda>a s. np_sub a (np_mul (np_div (dot [0, 0, 1] Oc) (dot [0, 0, 1] S)) s)) Oc S ! 2 = Fin 0"
proof -
  from assms(1) obtain o0 o1 o2 where Oc: "Oc = [o0, o1, o2]" by (rule length3E)
  from assms(2) obtain s0 s1 s2 where S: "S = [s0, s1, s2]" by (rule length3E)
  from assms(3) have "s2 \<noteq> 0" by (simp add: S dot_def)
  then show ?thesis by (simp add: Oc S dot_def np_div_def)
qed

lemma get_reference_points_unfold:
  assumes "trackers \<noteq> []" and "linalg_inv (K_new camera) = Inr K_inv" and "length (RT_inv camera) = 3"
  shows "get_reference_points linalg_inv trackers camera is_rectified =
    Inr (zip (map fst trackers)
      (map (\<lambda>bb.
         let pixel = (if is_rectified then mat_vec [[0.5, 0, 0.5, 0], [0, 0, 0, 1]] bb
                      else rectify_point camera (mat_vec [[0.5, 0, 0.5, 0], [0, 0, 0, 1]] bb));
             S = ray_direction camera K_inv pixel;
             t = np_div (dot [0, 0, 1] (camera_origin camera)) (dot [0, 0, 1] S)
         in map2 (\<lambda>a s. np_sub a (np_mul t s)) (camera_origin camera) S)
       (map snd trackers)))"
proof -
  have tk: "take 3 (camera_origin camera) = camera_origin camera"
    using assms(3) by (simp add: camera_origin_def)
  have tk2: "take 3 (ray_direction camera K_inv p) = ray_direction camera K_inv p" for p
    using length_ray_direction[OF assms(3)] by simp
  show ?thesis
    using assms(1)
    by (cases is_rectified)
       (simp_all add: get_reference_points_def assms(2) Let_def rectify_points_def
          map2_map_same comp_def camera_origin_def[symmetric] ray_direction_def[symmetric] tk tk2)
qed

text \<open>
  C3: for a non-empty detection map and a camera whose \<open>K_new\<close> is invertible (with the
  3-row inverse extrinsic transform), \<open>get_reference_points\<close> returns the input's keys in
  order; the value of a detection with box \<open>[x1, y1, x2, y2]\<close> is \<open>O - t S\<close> with
  \<open>t = (n O) / (n S)\<close>, \<open>n = (0, 0, 1)\<close>, where \<open>S\<close> is the direction of the ray through the
  reference pixel \<open>((x1 + x2) / 2, y2)\<close> (rectified first when the detections are not);
  when \<open>n S\<close> is not zero its third coordinate is zero.
\<close>

theorem get_reference_points_ground:
  assumes "trackers \<noteq> []" and "linalg_inv (K_new camera) = Inr K_inv" and "length (RT_inv camera) = 3"
  shows "\<exists>out. get_reference_points linalg_inv trackers camera is_rectified = Inr out
     \<and> map fst out = map fst trackers
     \<and> (\<forall>i < length trackers. \<forall>x1 y1 x2 y2. snd (trackers ! i) = [x1, y1, x2, y2] \<longrightarrow>
          (let pixel = (if is_rectified then [(x1 + x2) / 2, y2]
                        else rectify_point camera [(x1 + x2) / 2, y2]);
               S = ray_direction camera K_inv pixel;
               t = np_div (dot [0, 0, 1] (camera_origin camera)) (dot [0, 0, 1] S)
           in snd (out ! i) = map2 (\<lambda>a s. np_sub a (np_mul t s)) (camera_origin camera) S
              \<and> (dot [0, 0, 1] S \<noteq> 0 \<longrightarrow> snd (out ! i) ! 2 = Fin 0)))"
proof -
  let ?g = "\<lambda>bb.
         let pixel = (if is_rectified then mat_vec [[0.5, 0, 0.5, 0], [0, 0, 0, 1]] bb
                      else rectify_point camera (mat_vec [[0.5, 0, 0.5, 0], [0, 0, 0, 1]] bb));
             S = ray_direction camera K_inv pixel;
             t = np_div (dot [0, 0, 1] (camera_origin camera)) (dot [0, 0, 1] S)
         in map2 (\<lambda>a s. np_sub a (np_mul t s)) (camera_origin camera) S"
  let ?out = "zip (map fst trackers) (map ?g (map snd trackers))"
  have eq: "get_reference_points linalg_inv trackers camera is_rectified = Inr ?out"
    by (rule get_reference_points_unfold[of trackers linalg_inv camera K_inv, OF assms])
  have keys: "map fst ?out = map fst trackers" by simp
  have lo: "length (camera_origin camera) = 3" using assms(3) by (simp add: camera_origin_def)
  have val: "let pixel = (if is_rectified then [(x1 + x2) / 2, y2]
                        else rectify_point camera [(x1 + x2) / 2, y2]);
               S = ray_direction camera K_inv pixel;
               t = np_div (dot [0, 0, 1] (camera_origin camera)) (dot [0, 0, 1] S)
           in snd (?out ! i) = map2 (\<lambda>a s. np_sub a (np_mul t s)) (camera_origin camera) S
              \<and> (dot [0, 0, 1] S \<noteq> 0 \<longrightarrow> snd (?out ! i) ! 2 = Fin 0)"
    if i: "i < length trackers" and bb: "snd (trackers ! i) = [x1, y1, x2, y2]" for i x1 y1 x2 y2
  proof -
    have px: "mat_vec [[0.5, 0, 0.5, 0], [0, 0, 0, 1]] [x1, y1, x2, y2] = [(x1 + x2) / 2, y2]"
      by (simp add: mat_vec_def dot_def field_simps)
    have "snd (?out ! i) = ?g [x1, y1, x2, y2]" using i bb by simp
    then show ?thesis
      unfolding px Let_def
      using ground_point_z[OF lo length_ray_direction[OF assms(3)]] by simp
  qed
  show ?thesis using eq keys val by blast
qed

theorem get_reference_points_ground_witness:
  "[(1, [0, 0, 2, 4])] \<noteq> ([] :: (int \<times> vec) list)
   \<and> exact_inv (K_new horizon_camera) = Inr [[1, 0, 0], [0, 1, 0], [0, 0, 1]]
   \<and> length (RT_inv horizon_camera) = 3
   \<and> (\<exists>out. get_reference_points exact_inv [(1, [0, 0, 2, 4])] horizon_camera True = Inr out
        \<and> map fst out = [1] \<and> snd (out ! 0) ! 2 = Fin 0)"
proof -
  have h1: "[(1, [0, 0, 2, 4])] \<noteq> ([] :: (int \<times> vec) list)" by simp
  have h2: "exact_inv (K_new horizon_camera) = Inr [[1, 0, 0], [0, 1, 0], [0, 0, 1]]"
    by (simp add: exact_inv_def det3_def horizon_camera_def)
  have h3: "length (RT_inv horizon_camera) = 3" by (simp add: horizon_camera_def)
  have ns: "dot [0, 0, 1] (ray_direction horizon_camera [[1, 0, 0], [0, 1, 0], [0, 0, 1]] [(0 + 2) / 2, 4]) \<noteq> 0"
    by (simp add: ray_direction_def camera_origin_def horizon_camera_def mat_vec_def dot_def vec_sub_def)
  from get_reference_points_ground[of "[(1, [0, 0, 2, 4])]" exact_inv horizon_camera
      "[[1, 0, 0], [0, 1, 0], [0, 0, 1]]" True, OF h1 h2 h3] obtain out where
    o: "get_reference_points exact_inv [(1, [0, 0, 2, 4])] horizon_camera True = Inr out"
    and k: "map fst out = map fst [(1::int, [0, 0, 2, 4::real])]"
    and v: "\<forall>i < length [(1::int, [0, 0, 2, 4::real])]. \<forall>x1 y1 x2 y2.
          snd ([(1::int, [0, 0, 2, 4::real])] ! i) = [x1, y1, x2, y2] \<longrightarrow>
          (let pixel = (if True then [(x1 + x2) / 2, y2]
                        else rectify_point horizon_camera [(x1 + x2) / 2, y2]);
               S = ray_direction horizon_camera [[1, 0, 0], [0, 1, 0], [0, 0, 1]] pixel;
               t = np_div (dot [0, 0, 1] (camera_origin horizon_camera)) (dot [0, 0, 1] S)
           in snd (out ! i) = map2 (\<lambda>a s. np_sub a (np_mul t s)) (camera_origin horizon_camera) S
              \<and> (dot [0, 0, 1] S \<noteq> 0 \<longrightarrow> snd (out ! i) ! 2 = Fin 0))"
    by blast
  from v[rule_format, of 0 0 0 2 4] ns have "snd (out ! 0) ! 2 = Fin 0"
    by (auto simp: Let_def)
  then show ?thesis using h1 h2 h3 o k by auto
qed

text \<open>
  C8: there is an input whose ray is parallel to the ground plane (\<open>n S = 0\<close>): the
  division is carried out, and the identity is in the returned map with a world point
  that is not finite.
\<close>

theorem get_reference_points_parallel_ray:
  "dot [0, 0, 1] (ray_direction horizon_camera [[1, 0, 0], [0, 1, 0], [0, 0, 1]]
                    (reference_pixel [0, 0, 2, 0])) = 0
   \<and> get_reference_points exact_inv [(1, [0, 0, 2, 0])] horizon_camera True = Inr [(1, [NInf, NInf, NaN])]
   \<and> list_all (\<lambda>c. \<not> is_finite c) [NInf, NInf, NaN]"
  by (simp add: get_reference_points_def exact_inv_def det3_def horizon_camera_def Let_def
      ray_direction_def camera_origin_def reference_pixel_def
      mat_vec_def dot_def vec_sub_def np_div_def)




subsection \<open>The registry\<close>

lemma sync_lost_map_of:
  "map_of (sync_lost rp tids objs) tid =
     (if tid \<in> set tids \<and> tid \<notin> fst ` set rp then None else map_of objs tid)"
  by (induction tids arbitrary: objs) (auto simp: AList.delete_conv')

lemma set_delete_subset: "set (AList.delete k al) \<subseteq> set al"
  by (auto simp: AList.delete_eq)

lemma sync_lost_subset: "set (sync_lost rp tids objs) \<subseteq> set objs"
proof (induction tids arbitrary: objs)
  case Nil
  then show ?case by simp
next
  case (Cons t ts)
  show ?case
  proof (cases "t \<in> fst ` set rp")
    case True
    then show ?thesis using Cons.IH[of objs] by simp
  next
    case False
    then show ?thesis
      using Cons.IH[of "AList.delete t objs"] set_delete_subset[of t objs] by auto
  qed
qed

lemma sync_lost_distinct:
  "distinct (map fst objs) \<Longrightarrow> distinct (map fst (sync_lost rp tids objs))"
  by (induction tids arbitrary: objs) (auto simp: AList.distinct_delete)

lemma key_iff: "k \<in> fst ` set al \<longleftrightarrow> map_of al k \<noteq> None"
  by (simp add: map_of_eq_None_iff)

lemma sync_lost_keys:
  "fst ` set (sync_lost rp (map fst objs) objs) = fst ` set objs \<inter> fst ` set rp"
proof (rule set_eqI)
  fix k
  have "k \<in> fst ` set (sync_lost rp (map fst objs) objs)
      \<longleftrightarrow> map_of (sync_lost rp (map fst objs) objs) k \<noteq> None"
    by (rule key_iff)
  also have "\<dots> \<longleftrightarrow> \<not> (k \<in> fst ` set objs \<and> k \<notin> fst ` set rp) \<and> map_of objs k \<noteq> None"
    by (simp add: sync_lost_map_of)
  also have "\<dots> \<longleftrightarrow> k \<in> fst ` set objs \<and> k \<in> fst ` set rp"
    using key_iff[of k objs] by blast
  finally show "k \<in> fst ` set (sync_lost rp (map fst objs) objs)
      \<longleftrightarrow> k \<in> fst ` set objs \<inter> fst ` set rp" by simp
qed

lemma sync_points_Cons:
  "sync_points d rp (t # ts) objs =
     (case map_of rp t of
        None \<Rightarrow> Inl KeyError
      | Some p \<Rightarrow>
          (case sync_one d p (map_of objs t) of
             Inl e \<Rightarrow> Inl e
           | Inr obj \<Rightarrow> sync_points d rp ts (AList.update t obj objs)))"
  by (simp add: sync_one_def split: option.splits sum.splits)

lemma sync_points_other:
  "sync_points d rp tids objs = Inr objs' \<Longrightarrow> tid \<notin> set tids \<Longrightarrow>
     map_of objs' tid = map_of objs tid"
proof (induction tids arbitrary: objs)
  case Nil
  then show ?case by simp
next
  case (Cons t ts)
  from Cons.prems(1) obtain p obj where
    "sync_points d rp ts (AList.update t obj objs) = Inr objs'"
    by (auto simp: sync_points_Cons split: option.splits sum.splits)
  from Cons.IH[OF this] Cons.prems(2) show ?case
    by (simp add: AList.update_conv')
qed

lemma sync_points_key:
  "sync_points d rp tids objs = Inr objs' \<Longrightarrow> distinct tids \<Longrightarrow> tid \<in> set tids \<Longrightarrow>
     \<exists>p obj. map_of rp tid = Some p \<and> sync_one d p (map_of objs tid) = Inr obj
        \<and> map_of objs' tid = Some obj"
proof (induction tids arbitrary: objs)
  case Nil
  then show ?case by simp
next
  case (Cons t ts)
  from Cons.prems(1) obtain p obj where
    p: "map_of rp t = Some p" and o: "sync_one d p (map_of objs t) = Inr obj"
    and rest: "sync_points d rp ts (AList.update t obj objs) = Inr objs'"
    by (auto simp: sync_one_def split: option.splits sum.splits)
  show ?case
  proof (cases "tid = t")
    case True
    then have "tid \<notin> set ts" using Cons.prems(2) by simp
    from sync_points_other[OF rest this] True p o show ?thesis
      by (simp add: AList.update_conv')
  next
    case False
    then have "tid \<in> set ts" using Cons.prems(3) by simp
    from Cons.IH[OF rest _ this] Cons.prems(2) False show ?thesis
      by (simp add: AList.update_conv')
  qed
qed

lemma sync_points_keys:
  "sync_points d rp tids objs = Inr objs' \<Longrightarrow> fst ` set objs' = fst ` set objs \<union> set tids"
proof (induction tids arbitrary: objs)
  case Nil
  then show ?case by simp
next
  case (Cons t ts)
  from Cons.prems(1) obtain p obj where
    "sync_points d rp ts (AList.update t obj objs) = Inr objs'"
    by (auto simp: sync_points_Cons split: option.splits sum.splits)
  from Cons.IH[OF this] show ?case by (auto simp: AList.dom_update)
qed

lemma sync_points_distinct:
  "sync_points d rp tids objs = Inr objs' \<Longrightarrow> distinct (map fst objs) \<Longrightarrow> distinct (map fst objs')"
proof (induction tids arbitrary: objs)
  case Nil
  then show ?case by simp
next
  case (Cons t ts)
  from Cons.prems(1) obtain p obj where
    "sync_points d rp ts (AList.update t obj objs) = Inr objs'"
    by (auto simp: sync_points_Cons split: option.splits sum.splits)
  from Cons.IH[OF this] Cons.prems(2) show ?case by (simp add: AList.distinct_update)
qed

lemma set_alist_update: "set (AList.update k v al) \<subseteq> insert (k, v) (set al)"
  by (induction al) auto

lemma update_result:
  assumes "update self rp = Inr g'"
  shows "\<exists>objs'. sync_points (dt self) rp (map fst rp)
            (sync_lost rp (map fst (objects self)) (objects self)) = Inr objs'
          \<and> g' = self \<lparr> objects := objs' \<rparr>"
  using assms by (auto simp: update_def Let_def split: sum.splits)

lemma update_keys:
  assumes "update self rp = Inr g'"
  shows "fst ` set (objects g') = fst ` set rp"
proof -
  from update_result[OF assms] obtain objs' where
    s: "sync_points (dt self) rp (map fst rp)
            (sync_lost rp (map fst (objects self)) (objects self)) = Inr objs'"
    and g: "g' = self \<lparr> objects := objs' \<rparr>" by blast
  from sync_points_keys[OF s] show ?thesis
    by (auto simp: g sync_lost_keys)
qed

lemma update_entry:
  assumes "update self rp = Inr g'" and "distinct (map fst rp)" and "map_of rp tid = Some p"
  shows "\<exists>obj. sync_one (dt self) p (map_of (objects self) tid) = Inr obj
            \<and> map_of (objects g') tid = Some obj"
proof -
  from update_result[OF assms(1)] obtain objs' where
    s: "sync_points (dt self) rp (map fst rp)
            (sync_lost rp (map fst (objects self)) (objects self)) = Inr objs'"
    and g: "g' = self \<lparr> objects := objs' \<rparr>" by blast
  have mem: "tid \<in> set (map fst rp)"
    using assms(3) by (metis map_of_SomeD fst_conv image_eqI set_map)
  then have keep: "map_of (sync_lost rp (map fst (objects self)) (objects self)) tid
      = map_of (objects self) tid"
    by (simp add: sync_lost_map_of)
  from sync_points_key[OF s assms(2) mem] assms(3) keep show ?thesis
    by (auto simp: g)
qed

subsection \<open>Reachable states\<close>

lemma update_distinct:
  assumes "update self rp = Inr g'" and "distinct (map fst (objects self))"
  shows "distinct (map fst (objects g'))"
proof -
  from update_result[OF assms(1)] obtain objs' where
    s: "sync_points (dt self) rp (map fst rp)
            (sync_lost rp (map fst (objects self)) (objects self)) = Inr objs'"
    and g: "g' = self \<lparr> objects := objs' \<rparr>" by blast
  from sync_points_distinct[OF s sync_lost_distinct[OF assms(2)]] show ?thesis
    by (simp add: g)
qed

lemma reachable_distinct: "reachable g \<Longrightarrow> distinct (map fst (objects g))"
proof (induction rule: reachable.induct)
  case (init dz vz radius plen pstep d)
  show ?case by (simp add: ForwardCollisionGuard_init_def)
next
  case (step g ref_points g')
  from update_distinct[OF step.hyps(2) step.IH] show ?case .
qed

lemma update_fields:
  assumes "update self rp = Inr g'"
  shows "dt g' = dt self" "safety_radius g' = safety_radius self"
    "prediction_length g' = prediction_length self" "prediction_step g' = prediction_step self"
    "danger_zone g' = danger_zone self"
  using update_result[OF assms] by auto

lemma new_entry:
  assumes "update self rp = Inr g'" and "distinct (map fst rp)" and "map_of rp tid = Some p"
    and "tid \<notin> fst ` set (objects self)"
  shows "\<exists>obj. PointWorldObject_init p (dt self) = Inr obj \<and> map_of (objects g') tid = Some obj"
proof -
  have "map_of (objects self) tid = None" using assms(4) by (simp add: map_of_eq_None_iff)
  with update_entry[OF assms(1-3)] show ?thesis by (simp add: sync_one_def)
qed

lemma init_seed:
  assumes "PointWorldObject_init p d = Inr obj"
  shows "xy obj = None" "vxvy obj = None" "kf_x (kf obj) = [p ! 0, 0, 0, p ! 1, 0, 0]"
    "2 \<le> length p"
proof -
  from assms obtain k where k: "object_tracker (take 2 p) d = Inr k" and o: "obj = \<lparr> kf = k, xy = None, vxvy = None \<rparr>"
    by (auto simp: PointWorldObject_init_def split: sum.splits)
  from k obtain a b where t: "take 2 p = [a, b]" and kx: "kf_x k = [a, 0, 0, b, 0, 0]"
    by (auto simp: object_tracker_def split: list.splits)
  from t have l: "2 \<le> length p"
    by (metis length_take length_Cons list.size(3) min.cobounded1 numeral_2_eq_2)
  have "take 2 p ! 0 = p ! 0" "take 2 p ! 1 = p ! 1" by simp_all
  with t have "a = p ! 0" "b = p ! 1" by simp_all
  with kx o l show "xy obj = None" "vxvy obj = None" "kf_x (kf obj) = [p ! 0, 0, 0, p ! 1, 0, 0]"
    "2 \<le> length p" by simp_all
qed

subsection \<open>The filter of dangerous objects\<close>



lemma dangerous_items_near:
  "dangerous_items isect g items = Some (Inr res) \<Longrightarrow> (tid, obj) \<in> set res \<Longrightarrow>
     (tid, obj) \<in> set items \<and> np_less (distance obj) (safety_radius g)"
proof (induction items arbitrary: res)
  case Nil
  then show ?case by simp
next
  case (Cons it items)
  obtain t o1 where it: "it = (t, o1)" by (cases it)
  show ?case
  proof (cases "np_less (distance o1) (safety_radius g)")
    case False
    with Cons.prems have "dangerous_items isect g items = Some (Inr res)" by (simp add: it)
    from Cons.IH[OF this Cons.prems(2)] show ?thesis by simp
  next
    case True
    with Cons.prems(1) obtain path rest where
      r: "dangerous_items isect g items = Some (Inr rest)"
      and res: "res = (if isect path (danger_zone g) then (t, o1) # rest else rest)"
      by (auto simp: it split: option.splits sum.splits)
    show ?thesis
    proof (cases "(tid, obj) \<in> set rest")
      case True
      from Cons.IH[OF r this] show ?thesis by simp
    next
      case False
      with res Cons.prems(2) have "(tid, obj) = (t, o1)" by (auto split: if_splits)
      with \<open>np_less (distance o1) (safety_radius g)\<close> show ?thesis by (simp add: it)
    qed
  qed
qed










text \<open>
  C10: an identity that first appears in an \<open>update\<close> call is stored with an object whose
  \<open>location\<close> is \<open>None\<close> and whose \<open>distance\<close> is infinity; nothing but \<open>update\<close> changes
  the registry, so this holds until the next call, and whatever map \<open>dangerous_objects\<close>
  returns for that state does not contain the identity.
\<close>

theorem new_identity_not_dangerous:
  assumes "reachable self" and "update self ref_points = Inr g'"
    and "distinct (map fst ref_points)"
    and "tid \<in> fst ` set ref_points" and "tid \<notin> fst ` set (objects self)"
  shows "\<exists>obj. map_of (objects g') tid = Some obj \<and> location obj = None \<and> distance obj = PInf
     \<and> (\<forall>res. dangerous_objects isect g' = Some (Inr res) \<longrightarrow> tid \<notin> fst ` set res)"
proof -
  from assms(4) obtain p where p: "map_of ref_points tid = Some p"
    by (auto simp: key_iff)
  from new_entry[OF assms(2,3) p assms(5)] obtain obj where
    i: "PointWorldObject_init p (dt self) = Inr obj" and m: "map_of (objects g') tid = Some obj"
    by blast
  have x: "xy obj = None" by (rule init_seed(1)[OF i])
  have d: "distance obj = PInf" by (simp add: distance_def x)
  have dist: "distinct (map fst (objects g'))"
    by (rule update_distinct[OF assms(2) reachable_distinct[OF assms(1)]])
  have "tid \<notin> fst ` set res" if r: "dangerous_objects isect g' = Some (Inr res)" for res
  proof
    assume "tid \<in> fst ` set res"
    then obtain o1 where "(tid, o1) \<in> set res" by auto
    from dangerous_items_near[OF r[unfolded dangerous_objects_def] this]
    have mem: "(tid, o1) \<in> set (objects g')" and near: "np_less (distance o1) (safety_radius g')"
      by simp_all
    from mem dist have "map_of (objects g') tid = Some o1" by simp
    with m have "o1 = obj" by simp
    with near d show False by simp
  qed
  with m x d show ?thesis by (auto simp: location_def)
qed

theorem new_identity_not_dangerous_witness:
  "\<exists>g' obj. reachable (ForwardCollisionGuard_init [] [] 25 1 (1 / 10) 1)
     \<and> update (ForwardCollisionGuard_init [] [] 25 1 (1 / 10) 1) [(1, [3, 4, 0])] = Inr g'
     \<and> distinct (map fst [(1::int, [3, 4, 0::real])])
     \<and> 1 \<in> fst ` set [(1::int, [3, 4, 0::real])]
     \<and> 1 \<notin> fst ` set (objects (ForwardCollisionGuard_init [] [] 25 1 (1 / 10) 1))
     \<and> map_of (objects g') 1 = Some obj \<and> location obj = None \<and> distance obj = PInf
     \<and> dangerous_objects vertex_hit g' = Some (Inr [])"
proof -
  let ?g = "ForwardCollisionGuard_init [] [] 25 1 (1 / 10) 1"
  let ?rp = "[(1::int, [3, 4, 0::real])]"
  have h1: "reachable ?g" by (rule reachable.init)
  have u: "update ?g ?rp = Inr (?g \<lparr> objects := [(1, new_object)] \<rparr>)"
    by (simp add: update_def ForwardCollisionGuard_init_def PointWorldObject_init_def
      object_tracker_def new_object_def Let_def)
  have h3: "distinct (map fst ?rp)" by simp
  have h4: "1 \<in> fst ` set ?rp" by simp
  have h5: "1 \<notin> fst ` set (objects ?g)" by (simp add: ForwardCollisionGuard_init_def)
  have dg: "dangerous_objects vertex_hit (?g \<lparr> objects := [(1, new_object)] \<rparr>) = Some (Inr [])"
    by (simp add: dangerous_objects_def distance_def new_object_def)
  from new_identity_not_dangerous[OF h1 u h3 h4 h5, of vertex_hit] h1 u h3 h4 h5 dg
  show ?thesis by auto
qed

end
